theory Spec2Isabelle
  imports Main "HOL-Library.Multiset"
begin

section \<open>Data model\<close>

text \<open>
  Modelled from the spec: the declarations of \<^verbatim>\<open>ClaudianPlugin\<close> and
  \<^verbatim>\<open>SdkPluginConfig\<close> live in \<^verbatim>\<open>core/types\<close>, which PluginManager.ts only
  imports. The fields are the ones the spec lists for a Plugin (and the unit tests'
  \<^verbatim>\<open>createMockPlugin\<close> fills in); the status is one of \<^verbatim>\<open>available\<close>,
  \<^verbatim>\<open>unavailable\<close>, \<^verbatim>\<open>invalid-manifest\<close>.
\<close>

datatype PluginStatus = Available | Unavailable | InvalidManifest

datatype PluginScope = User | Project | Local

record ClaudianPlugin =
  id' :: string
  name :: string
  description :: string
  version :: string
  installPath :: string
  pluginPath :: string
  scope :: PluginScope
  enabled :: bool
  status :: PluginStatus

datatype SdkPluginType = TypeLocal

record SdkPluginConfig =
  type' :: SdkPluginType
  path :: string

text \<open>The element type of the array that \<^verbatim>\<open>getPluginCommandPaths\<close> returns.\<close>

record PluginCommandPath =
  pluginName :: string
  commandsPath :: string

subsection \<open>The JavaScript \<^verbatim>\<open>Set<string>\<close>\<close>

text \<open>
  A JavaScript Set iterates in insertion order, so it is a list without repetitions:
  \<^verbatim>\<open>add\<close> appends an absent element and leaves a present one where it is,
  \<^verbatim>\<open>delete\<close> removes it, \<^verbatim>\<open>new Set(iterable)\<close> adds the elements one by one
  and \<^verbatim>\<open>Array.from\<close> reads the list off.
\<close>

type_synonym string_set = "string list"

definition set_has :: "string_set \<Rightarrow> string \<Rightarrow> bool" where
  "set_has s x = (x \<in> set s)"

definition set_add :: "string \<Rightarrow> string_set \<Rightarrow> string_set" where
  "set_add x s = (if x \<in> set s then s else s @ [x])"

definition set_delete :: "string \<Rightarrow> string_set \<Rightarrow> string_set" where
  "set_delete x s = removeAll x s"

definition new_Set :: "string list \<Rightarrow> string_set" where
  "new_Set ids = foldl (\<lambda>s x. set_add x s) [] ids"

definition Array_from :: "string_set \<Rightarrow> string list" where
  "Array_from s = s"

subsection \<open>The coordinator\<close>

text \<open>
  The private fields of the class. The third field, \<^verbatim>\<open>storage\<close>, is only ever asked
  for its plugin list: what it answers is an argument of \<open>loadPlugins\<close> below.
\<close>

record PluginManager =
  plugins :: "ClaudianPlugin list"
  enabledPluginIds :: string_set

definition constructor :: PluginManager where
  "constructor = \<lparr>plugins = [], enabledPluginIds = new_Set []\<rparr>"

datatype storage_error = StorageError string

section \<open>Operations\<close>

definition getActivePlugins :: "PluginManager \<Rightarrow> ClaudianPlugin list" where
  "getActivePlugins s = filter (\<lambda>plugin. enabled plugin \<and> status plugin = Available) (plugins s)"

text \<open>The loop of both \<^verbatim>\<open>setEnabledPluginIds\<close> and \<^verbatim>\<open>loadPlugins\<close>.\<close>

definition apply_enabled :: "string_set \<Rightarrow> ClaudianPlugin list \<Rightarrow> ClaudianPlugin list" where
  "apply_enabled ids ps = map (\<lambda>plugin. plugin\<lparr>enabled := set_has ids (id' plugin)\<rparr>) ps"

definition setEnabledPluginIds :: "string list \<Rightarrow> PluginManager \<Rightarrow> PluginManager" where
  "setEnabledPluginIds ids s =
     (let ids' = new_Set ids
      in \<lparr>plugins = apply_enabled ids' (plugins s), enabledPluginIds = ids'\<rparr>)"

text \<open>
  \<^verbatim>\<open>this.storage.loadPlugins()\<close> either throws, and the exception leaves the method
  before anything is assigned, or returns the registry's list.
\<close>

definition loadPlugins ::
  "storage_error + ClaudianPlugin list \<Rightarrow> PluginManager \<Rightarrow> storage_error + PluginManager" where
  "loadPlugins answer s =
     (case answer of
        Inl e \<Rightarrow> Inl e
      | Inr ps \<Rightarrow> Inr (s\<lparr>plugins := apply_enabled (enabledPluginIds s) ps\<rparr>))"

definition getPlugins :: "PluginManager \<Rightarrow> ClaudianPlugin list" where
  "getPlugins s = plugins s"

definition getActivePluginConfigs :: "PluginManager \<Rightarrow> SdkPluginConfig list" where
  "getActivePluginConfigs s =
     map (\<lambda>plugin. \<lparr>type' = TypeLocal, path = pluginPath plugin\<rparr>) (getActivePlugins s)"

definition getUnavailableEnabledPlugins :: "PluginManager \<Rightarrow> string list" where
  "getUnavailableEnabledPlugins s =
     map id' (filter (\<lambda>plugin. enabled plugin \<and> status plugin \<noteq> Available) (plugins s))"

definition hasEnabledPlugins :: "PluginManager \<Rightarrow> bool" where
  "hasEnabledPlugins s = (length (getActivePlugins s) > 0)"

definition getEnabledCount :: "PluginManager \<Rightarrow> nat" where
  "getEnabledCount s = length (getActivePlugins s)"

text \<open>
  \<^verbatim>\<open>Array.prototype.sort\<close> with a comparison function is a stable sort: an element
  moves behind another one only when the function says it is greater. \<open>insert_sorted\<close>
  puts \<open>x\<close>, which stood in front of all of \<open>ys\<close>, before the first element it is
  not greater than.
\<close>

fun insert_sorted :: "('a \<Rightarrow> 'a \<Rightarrow> int) \<Rightarrow> 'a \<Rightarrow> 'a list \<Rightarrow> 'a list" where
  "insert_sorted cmp x [] = [x]"
| "insert_sorted cmp x (y # ys) =
     (if cmp x y \<le> 0 then x # y # ys else y # insert_sorted cmp x ys)"

fun array_sort :: "('a \<Rightarrow> 'a \<Rightarrow> int) \<Rightarrow> 'a list \<Rightarrow> 'a list" where
  "array_sort cmp [] = []"
| "array_sort cmp (x # xs) = insert_sorted cmp x (array_sort cmp xs)"

fun join :: "string \<Rightarrow> string list \<Rightarrow> string" where
  "join sep [] = []"
| "join sep [x] = x"
| "join sep (x # y # ys) = x @ sep @ join sep (y # ys)"

text \<open>
  \<^verbatim>\<open>String.prototype.localeCompare\<close> belongs to the JavaScript runtime and depends on
  its locale data, so it is the parameter \<open>localeCompare\<close>.
\<close>

definition getPluginsKey :: "(string \<Rightarrow> string \<Rightarrow> int) \<Rightarrow> PluginManager \<Rightarrow> string" where
  "getPluginsKey localeCompare s =
     (let activePlugins =
            array_sort (\<lambda>a b. localeCompare (id' a) (id' b)) (getActivePlugins s)
      in if length activePlugins = 0 then ''''
         else join ''|'' (map (\<lambda>plugin. id' plugin @ '':'' @ pluginPath plugin) activePlugins))"

text \<open>
  \<^verbatim>\<open>plugin.enabled = b\<close> on the object that \<^verbatim>\<open>find\<close> returned: the first element
  of the array with that id. The elements of the array are taken to be separate objects,
  as they are when identifiers are unique; an object that stood at two places of the
  array would show the assignment at both.
\<close>

fun assign_enabled :: "string \<Rightarrow> bool \<Rightarrow> ClaudianPlugin list \<Rightarrow> ClaudianPlugin list" where
  "assign_enabled pluginId b [] = []"
| "assign_enabled pluginId b (p # ps) =
     (if id' p = pluginId then p\<lparr>enabled := b\<rparr> # ps else p # assign_enabled pluginId b ps)"

definition togglePlugin :: "string \<Rightarrow> PluginManager \<Rightarrow> string list \<times> PluginManager" where
  "togglePlugin pluginId s =
     (case find (\<lambda>p. id' p = pluginId) (plugins s) of
        None \<Rightarrow> (Array_from (enabledPluginIds s), s)
      | Some plugin \<Rightarrow>
          (let s' =
                 (if enabled plugin
                  then \<lparr>plugins = assign_enabled pluginId False (plugins s),
                        enabledPluginIds = set_delete pluginId (enabledPluginIds s)\<rparr>
                  else \<lparr>plugins = assign_enabled pluginId True (plugins s),
                        enabledPluginIds = set_add pluginId (enabledPluginIds s)\<rparr>)
           in (Array_from (enabledPluginIds s'), s')))"

definition enablePlugin :: "string \<Rightarrow> PluginManager \<Rightarrow> string list \<times> PluginManager" where
  "enablePlugin pluginId s =
     (let s' =
            (case find (\<lambda>p. id' p = pluginId) (plugins s) of
               None \<Rightarrow> s
             | Some plugin \<Rightarrow>
                 if \<not> enabled plugin
                 then \<lparr>plugins = assign_enabled pluginId True (plugins s),
                       enabledPluginIds = set_add pluginId (enabledPluginIds s)\<rparr>
                 else s)
      in (Array_from (enabledPluginIds s'), s'))"

definition disablePlugin :: "string \<Rightarrow> PluginManager \<Rightarrow> string list \<times> PluginManager" where
  "disablePlugin pluginId s =
     (let s' =
            (case find (\<lambda>p. id' p = pluginId) (plugins s) of
               None \<Rightarrow> s
             | Some plugin \<Rightarrow>
                 if enabled plugin
                 then \<lparr>plugins = assign_enabled pluginId False (plugins s),
                       enabledPluginIds = set_delete pluginId (enabledPluginIds s)\<rparr>
                 else s)
      in (Array_from (enabledPluginIds s'), s'))"

definition hasPlugins :: "PluginManager \<Rightarrow> bool" where
  "hasPlugins s = (length (plugins s) > 0)"

definition getPluginCommandPaths :: "PluginManager \<Rightarrow> PluginCommandPath list" where
  "getPluginCommandPaths s =
     map (\<lambda>plugin. \<lparr>pluginName = name plugin, commandsPath = installPath plugin\<rparr>)
       (getActivePlugins s)"

section \<open>Sequences of calls\<close>

text \<open>
  The mutating methods as calls, each with its arguments; a load carries what the
  storage answers to it. The body of \<^verbatim>\<open>loadPlugins\<close> has no \<^verbatim>\<open>await\<close>, so every
  call runs to its end before the next one starts. A load whose storage throws rejects
  its promise and leaves the coordinator as it was.
\<close>

datatype call =
    SetEnabledPluginIds "string list"
  | LoadPlugins "storage_error + ClaudianPlugin list"
  | TogglePlugin string
  | EnablePlugin string
  | DisablePlugin string

fun step :: "PluginManager \<Rightarrow> call \<Rightarrow> PluginManager" where
  "step s (SetEnabledPluginIds ids) = setEnabledPluginIds ids s"
| "step s (LoadPlugins answer) = (case loadPlugins answer s of Inl e \<Rightarrow> s | Inr s' \<Rightarrow> s')"
| "step s (TogglePlugin pluginId) = snd (togglePlugin pluginId s)"
| "step s (EnablePlugin pluginId) = snd (enablePlugin pluginId s)"
| "step s (DisablePlugin pluginId) = snd (disablePlugin pluginId s)"

definition run :: "call list \<Rightarrow> PluginManager" where
  "run cs = foldl step constructor cs"

text \<open>
  The invariant of the spec's data model: identifiers are unique within the list the
  coordinator holds. The coordinator does not enforce it; it trusts the registry.
\<close>

definition unique_ids :: "PluginManager \<Rightarrow> bool" where
  "unique_ids s = distinct (map id' (plugins s))"

text \<open>
  The flag of the plugin that \<^verbatim>\<open>find\<close> returns for an identifier agrees with the
  identifier's membership in the Enabled-ID Set.
\<close>

definition found_agrees :: "PluginManager \<Rightarrow> bool" where
  "found_agrees s =
     (\<forall>x p. find (\<lambda>p. id' p = x) (plugins s) = Some p \<longrightarrow>
        enabled p = (x \<in> set (enabledPluginIds s)))"

section \<open>Comparisons\<close>



text \<open>A comparison to put in the parameter's place in concrete instances: by character code.\<close>

fun compare_codes :: "string \<Rightarrow> string \<Rightarrow> int" where
  "compare_codes [] [] = 0"
| "compare_codes [] (y # ys) = - 1"
| "compare_codes (x # xs) [] = 1"
| "compare_codes (x # xs) (y # ys) =
     (if (of_char x :: nat) < of_char y then - 1
      else if (of_char y :: nat) < of_char x then 1
      else compare_codes xs ys)"


section \<open>Arrays in a store\<close>

text \<open>
  The queries build new arrays (\<^verbatim>\<open>filter\<close>, \<^verbatim>\<open>map\<close>, the spread) and
  \<^verbatim>\<open>sort\<close> works in place, so whether a query touches the coordinator's own array
  depends on which array is which. Here the arrays of plugins live in a store: an address
  holds an array of references to plugin objects, and a new array takes the next free
  address. The arrays of strings, configs and paths that a query returns hold no plugin
  object; they are plain values.
\<close>

type_synonym ref = nat

record heap =
  arrays :: "ref \<Rightarrow> ref list"
  objects :: "ref \<Rightarrow> ClaudianPlugin"
  next_array :: ref

text \<open>The instance: the address of its \<^verbatim>\<open>plugins\<close> array, and its Set.\<close>

record PluginManager_heap =
  plugins_ref :: ref
  enabledPluginIds_val :: string_set

text \<open>
  \<^verbatim>\<open>filter\<close> and the spread \<^verbatim>\<open>[...a]\<close> allocate, \<^verbatim>\<open>sort\<close> overwrites the
  array it is called on and returns it.
\<close>

definition new_array :: "ref list \<Rightarrow> heap \<Rightarrow> ref \<times> heap" where
  "new_array xs h =
     (next_array h, h\<lparr>arrays := (arrays h)(next_array h := xs), next_array := Suc (next_array h)\<rparr>)"

definition Array_values :: "ref \<Rightarrow> heap \<Rightarrow> ClaudianPlugin list" where
  "Array_values a h = map (objects h) (arrays h a)"

definition Array_filter :: "(ClaudianPlugin \<Rightarrow> bool) \<Rightarrow> ref \<Rightarrow> heap \<Rightarrow> ref \<times> heap" where
  "Array_filter P a h = new_array (filter (\<lambda>r. P (objects h r)) (arrays h a)) h"

definition Array_sort ::
  "(ClaudianPlugin \<Rightarrow> ClaudianPlugin \<Rightarrow> int) \<Rightarrow> ref \<Rightarrow> heap \<Rightarrow> ref \<times> heap" where
  "Array_sort cmp a h =
     (a, h\<lparr>arrays := (arrays h)
            (a := array_sort (\<lambda>r r'. cmp (objects h r) (objects h r')) (arrays h a))\<rparr>)"

definition Array_spread :: "ref \<Rightarrow> heap \<Rightarrow> ref \<times> heap" where
  "Array_spread a h = new_array (arrays h a) h"

text \<open>
  The coordinator's state as the sections above have it, read off the store; and the
  condition that its array was allocated before.
\<close>

definition view :: "PluginManager_heap \<Rightarrow> heap \<Rightarrow> PluginManager" where
  "view this h =
     \<lparr>plugins = Array_values (plugins_ref this) h,
      enabledPluginIds = enabledPluginIds_val this\<rparr>"

definition allocated :: "PluginManager_heap \<Rightarrow> heap \<Rightarrow> bool" where
  "allocated this h = (plugins_ref this < next_array h)"

text \<open>
  The queries on the store: each takes the instance and the heap, and returns its result
  and the heap it leaves. None of them assigns a field of the instance.
\<close>

definition getActivePlugins_heap :: "PluginManager_heap \<Rightarrow> heap \<Rightarrow> ref \<times> heap" where
  "getActivePlugins_heap this h =
     Array_filter (\<lambda>plugin. enabled plugin \<and> status plugin = Available) (plugins_ref this) h"

definition getPlugins_heap :: "PluginManager_heap \<Rightarrow> heap \<Rightarrow> ref \<times> heap" where
  "getPlugins_heap this h = Array_spread (plugins_ref this) h"

definition getActivePluginConfigs_heap :: "PluginManager_heap \<Rightarrow> heap \<Rightarrow> SdkPluginConfig list \<times> heap" where
  "getActivePluginConfigs_heap this h =
     (let (a, h') = getActivePlugins_heap this h
      in (map (\<lambda>plugin. \<lparr>type' = TypeLocal, path = pluginPath plugin\<rparr>) (Array_values a h'), h'))"

definition getUnavailableEnabledPlugins_heap :: "PluginManager_heap \<Rightarrow> heap \<Rightarrow> string list \<times> heap" where
  "getUnavailableEnabledPlugins_heap this h =
     (let (a, h') =
            Array_filter (\<lambda>plugin. enabled plugin \<and> status plugin \<noteq> Available)
              (plugins_ref this) h
      in (map id' (Array_values a h'), h'))"

definition hasEnabledPlugins_heap :: "PluginManager_heap \<Rightarrow> heap \<Rightarrow> bool \<times> heap" where
  "hasEnabledPlugins_heap this h =
     (let (a, h') = getActivePlugins_heap this h in (length (arrays h' a) > 0, h'))"

definition getEnabledCount_heap :: "PluginManager_heap \<Rightarrow> heap \<Rightarrow> nat \<times> heap" where
  "getEnabledCount_heap this h =
     (let (a, h') = getActivePlugins_heap this h in (length (arrays h' a), h'))"

definition getPluginsKey_heap ::
  "(string \<Rightarrow> string \<Rightarrow> int) \<Rightarrow> PluginManager_heap \<Rightarrow> heap \<Rightarrow> string \<times> heap" where
  "getPluginsKey_heap localeCompare this h =
     (let (a, h1) = getActivePlugins_heap this h;
          (activePlugins, h2) = Array_sort (\<lambda>a b. localeCompare (id' a) (id' b)) a h1
      in if length (arrays h2 activePlugins) = 0 then ('''', h2)
         else (join ''|''
                 (map (\<lambda>plugin. id' plugin @ '':'' @ pluginPath plugin)
                    (Array_values activePlugins h2)), h2))"

definition hasPlugins_heap :: "PluginManager_heap \<Rightarrow> heap \<Rightarrow> bool \<times> heap" where
  "hasPlugins_heap this h = (length (arrays h (plugins_ref this)) > 0, h)"

definition getPluginCommandPaths_heap :: "PluginManager_heap \<Rightarrow> heap \<Rightarrow> PluginCommandPath list \<times> heap" where
  "getPluginCommandPaths_heap this h =
     (let (a, h') = getActivePlugins_heap this h
      in (map (\<lambda>plugin. \<lparr>pluginName = name plugin, commandsPath = installPath plugin\<rparr>)
            (Array_values a h'), h'))"

text \<open>What a caller does to an array it holds: any change of its elements.\<close>

definition caller_writes :: "ref \<Rightarrow> ref list \<Rightarrow> heap \<Rightarrow> heap" where
  "caller_writes a xs h = h\<lparr>arrays := (arrays h)(a := xs)\<rparr>"

text \<open>The part of the heap the coordinator's state consists of.\<close>

definition same_state :: "PluginManager_heap \<Rightarrow> heap \<Rightarrow> heap \<Rightarrow> bool" where
  "same_state this h h' =
     (arrays h' (plugins_ref this) = arrays h (plugins_ref this) \<and> objects h' = objects h)"

section \<open>Sample data\<close>

text \<open>Two plugins, a run of calls and the state it ends in, for the concrete instances below.\<close>

definition plugin_a :: ClaudianPlugin where
  "plugin_a = \<lparr>id' = ''a'', name = ''A'', description = ''first'', version = ''1.0.0'',
     installPath = ''/a'', pluginPath = ''/a/.claude-plugin'', scope = User,
     enabled = False, status = Available\<rparr>"

definition plugin_b :: ClaudianPlugin where
  "plugin_b = \<lparr>id' = ''b'', name = ''B'', description = ''second'', version = ''1.0.0'',
     installPath = ''/b'', pluginPath = ''/b/.claude-plugin'', scope = Project,
     enabled = True, status = Unavailable\<rparr>"

definition example_calls :: "call list" where
  "example_calls =
     [SetEnabledPluginIds [''b'', ''c''], LoadPlugins (Inr [plugin_b, plugin_a]),
      TogglePlugin ''a'', DisablePlugin ''b'', EnablePlugin ''b'',
      LoadPlugins (Inl (StorageError ''io''))]"




text \<open>
  Two coordinators that hold the same two active plugins, loaded in opposite orders and
  enabled in opposite orders.
\<close>

definition state_ba :: PluginManager where
  "state_ba = \<lparr>plugins = [plugin_b\<lparr>status := Available\<rparr>, plugin_a\<lparr>enabled := True\<rparr>],
     enabledPluginIds = [''a'', ''b'']\<rparr>"


text \<open>A heap with the array of \<open>state_ba\<close> at address 0, and the instance that owns it.\<close>

definition example_heap :: heap where
  "example_heap =
     \<lparr>arrays = (\<lambda>a. [])(0 := [10, 11]),
      objects = (\<lambda>r. plugin_a\<lparr>enabled := True\<rparr>)(10 := plugin_b\<lparr>status := Available\<rparr>),
      next_array = 1\<rparr>"

definition example_this :: PluginManager_heap where
  "example_this = \<lparr>plugins_ref = 0, enabledPluginIds_val = [''a'', ''b'']\<rparr>"

section \<open>The Enabled-ID Set and the enabled flags\<close>

text \<open>
  An invariant of the states a coordinator can reach, whatever the registry answers: for
  every identifier, the plugin that \<^verbatim>\<open>find\<close> returns has the flag that the
  Enabled-ID Set gives it (\<open>found_agrees\<close>). Where identifiers are unique, every loaded
  plugin is the one that \<^verbatim>\<open>find\<close> returns for its identifier.
\<close>

lemma set_set_add: "set (set_add x s) = insert x (set s)"
  by (auto simp: set_add_def)

lemma set_set_delete: "set (set_delete x s) = set s - {x}"
  by (auto simp: set_delete_def)

lemma set_foldl_set_add: "set (foldl (\<lambda>s x. set_add x s) acc ids) = set acc \<union> set ids"
  by (induction ids arbitrary: acc) (auto simp: set_set_add)

lemma set_new_Set: "set (new_Set ids) = set ids"
  by (simp add: new_Set_def set_foldl_set_add)

lemma map_id_apply_enabled: "map id' (apply_enabled ids ps) = map id' ps"
  by (simp add: apply_enabled_def)

lemma map_id_assign_enabled: "map id' (assign_enabled x b ps) = map id' ps"
  by (induction ps) auto

lemma find_apply_enabled:
  "find (\<lambda>p. id' p = x) (apply_enabled ids ps) =
     map_option (\<lambda>p. p\<lparr>enabled := set_has ids (id' p)\<rparr>) (find (\<lambda>p. id' p = x) ps)"
  by (induction ps) (auto simp: apply_enabled_def)

lemma find_assign_enabled:
  "find (\<lambda>p. id' p = y) (assign_enabled x b ps) =
     (if y = x then map_option (\<lambda>p. p\<lparr>enabled := b\<rparr>) (find (\<lambda>p. id' p = x) ps)
      else find (\<lambda>p. id' p = y) ps)"
  by (induction ps) auto

lemma find_id: "find (\<lambda>p. id' p = x) ps = Some p \<Longrightarrow> id' p = x"
  by (induction ps) (auto split: if_splits)

lemma found_agrees_constructor: "found_agrees constructor"
  by (simp add: found_agrees_def constructor_def)

lemma found_agrees_apply:
  assumes "plugins s = apply_enabled (enabledPluginIds s) ps"
  shows "found_agrees s"
proof -
  have "enabled p = (x \<in> set (enabledPluginIds s))"
    if "find (\<lambda>p. id' p = x) (plugins s) = Some p" for x p
  proof -
    from that assms obtain q where q: "find (\<lambda>p. id' p = x) ps = Some q"
      and p: "p = q\<lparr>enabled := set_has (enabledPluginIds s) (id' q)\<rparr>"
      by (auto simp: find_apply_enabled)
    from q have "id' q = x" by (rule find_id)
    with p show ?thesis by (simp add: set_has_def)
  qed
  then show ?thesis
    by (simp add: found_agrees_def)
qed

lemma found_agrees_loadPlugins:
  assumes "loadPlugins answer s = Inr s'"
  shows "found_agrees s'"
proof -
  from assms obtain ps where "plugins s' = apply_enabled (enabledPluginIds s') ps"
    by (cases answer) (auto simp: loadPlugins_def)
  then show ?thesis by (rule found_agrees_apply)
qed

lemma found_agrees_setEnabledPluginIds: "found_agrees (setEnabledPluginIds ids s)"
  by (rule found_agrees_apply [where ps = "plugins s"])
    (simp add: setEnabledPluginIds_def Let_def)

lemma found_agrees_assign:
  assumes "found_agrees s"
    and "(x \<in> set ids) = b"
    and "\<And>y. y \<noteq> x \<Longrightarrow> (y \<in> set ids) = (y \<in> set (enabledPluginIds s))"
  shows "found_agrees \<lparr>plugins = assign_enabled x b (plugins s), enabledPluginIds = ids\<rparr>"
proof -
  have "enabled p = (y \<in> set ids)"
    if "find (\<lambda>p. id' p = y) (assign_enabled x b (plugins s)) = Some p" for y p
  proof (cases "y = x")
    case True
    with that obtain q where "p = q\<lparr>enabled := b\<rparr>"
      by (auto simp: find_assign_enabled)
    with True assms(2) show ?thesis by simp
  next
    case False
    with that have "find (\<lambda>p. id' p = y) (plugins s) = Some p"
      by (simp add: find_assign_enabled)
    with assms(1) have "enabled p = (y \<in> set (enabledPluginIds s))"
      by (simp add: found_agrees_def)
    with False assms(3) show ?thesis by simp
  qed
  then show ?thesis by (simp add: found_agrees_def)
qed

lemma found_agrees_add:
  "found_agrees s \<Longrightarrow>
   found_agrees \<lparr>plugins = assign_enabled x True (plugins s),
                 enabledPluginIds = set_add x (enabledPluginIds s)\<rparr>"
  by (rule found_agrees_assign) (simp_all add: set_set_add)

lemma found_agrees_delete:
  "found_agrees s \<Longrightarrow>
   found_agrees \<lparr>plugins = assign_enabled x False (plugins s),
                 enabledPluginIds = set_delete x (enabledPluginIds s)\<rparr>"
  by (rule found_agrees_assign) (simp_all add: set_set_delete)

lemma found_agrees_togglePlugin: "found_agrees s \<Longrightarrow> found_agrees (snd (togglePlugin x s))"
  by (simp add: togglePlugin_def Let_def found_agrees_add found_agrees_delete
      split: option.splits)

lemma found_agrees_enablePlugin: "found_agrees s \<Longrightarrow> found_agrees (snd (enablePlugin x s))"
  by (simp add: enablePlugin_def Let_def found_agrees_add split: option.splits)

lemma found_agrees_disablePlugin: "found_agrees s \<Longrightarrow> found_agrees (snd (disablePlugin x s))"
  by (simp add: disablePlugin_def Let_def found_agrees_delete split: option.splits)

lemma found_agrees_step: "found_agrees s \<Longrightarrow> found_agrees (step s c)"
  by (cases c)
    (auto simp: found_agrees_setEnabledPluginIds found_agrees_togglePlugin
      found_agrees_enablePlugin found_agrees_disablePlugin
      split: sum.splits dest: found_agrees_loadPlugins)

lemma found_agrees_foldl: "found_agrees s \<Longrightarrow> found_agrees (foldl step s cs)"
  by (induction cs arbitrary: s) (auto simp: found_agrees_step)

lemma found_agrees_run: "found_agrees (run cs)"
  by (simp add: run_def found_agrees_foldl found_agrees_constructor)

lemma find_unique:
  "distinct (map id' ps) \<Longrightarrow> p \<in> set ps \<Longrightarrow> find (\<lambda>q. id' q = id' p) ps = Some p"
  by (induction ps) (auto simp: image_iff)

lemma agrees_all:
  assumes "found_agrees s" "unique_ids s" "p \<in> set (plugins s)"
  shows "enabled p = (id' p \<in> set (enabledPluginIds s))"
proof -
  have "find (\<lambda>q. id' q = id' p) (plugins s) = Some p"
    using assms(2,3) by (simp add: unique_ids_def find_unique)
  with assms(1) show ?thesis
    by (simp add: found_agrees_def)
qed

lemma example_run:
  "run example_calls =
     \<lparr>plugins = [plugin_b, plugin_a\<lparr>enabled := True\<rparr>], enabledPluginIds = [''c'', ''a'', ''b'']\<rparr>"
  by (simp add: run_def example_calls_def constructor_def new_Set_def set_add_def
      setEnabledPluginIds_def loadPlugins_def apply_enabled_def set_has_def togglePlugin_def
      enablePlugin_def disablePlugin_def set_delete_def Array_from_def plugin_a_def plugin_b_def)

text \<open>
  C1. Start from a new coordinator and make any calls of \<^verbatim>\<open>setEnabledPluginIds\<close>,
  \<^verbatim>\<open>loadPlugins\<close>, \<^verbatim>\<open>togglePlugin\<close>, \<^verbatim>\<open>enablePlugin\<close> and
  \<^verbatim>\<open>disablePlugin\<close>, in any order. After each call, that is after the first \<open>k\<close>
  calls for every \<open>k\<close>, every plugin \<open>P\<close> of the loaded list has \<open>enabled P\<close> exactly
  when its identifier is in the Enabled-ID Set; the list held at that moment has unique
  identifiers, as the data model requires of every list the coordinator holds.
\<close>

theorem enabled_flag_reflects_set:
  assumes "unique_ids (run (take k cs))"
    and "P \<in> set (plugins (run (take k cs)))"
  shows "enabled P = (id' P \<in> set (enabledPluginIds (run (take k cs))))"
  using found_agrees_run [of "take k cs"] assms by (rule agrees_all)

theorem enabled_flag_reflects_set_witness:
  "unique_ids (run (take 6 example_calls)) \<and>
   plugin_b \<in> set (plugins (run (take 6 example_calls))) \<and>
   enabled plugin_b = (id' plugin_b \<in> set (enabledPluginIds (run (take 6 example_calls))))"
proof -
  have all: "take 6 example_calls = example_calls"
    by (simp add: example_calls_def)
  have u: "unique_ids (run (take 6 example_calls))"
    by (simp add: all example_run unique_ids_def plugin_a_def plugin_b_def)
  have m: "plugin_b \<in> set (plugins (run (take 6 example_calls)))"
    by (simp add: all example_run)
  from u m enabled_flag_reflects_set [OF u m] show ?thesis
    by simp
qed

text \<open>
  C6. When no plugin of the loaded list has the identifier, \<^verbatim>\<open>togglePlugin\<close> (which
  has no failing branch) leaves the whole state, plugin list and Enabled-ID Set, as it
  was and returns the Enabled-ID Set of before the call.
\<close>

theorem toggle_unknown_noop:
  assumes "pluginId \<notin> id' ` set (plugins s)"
  shows "snd (togglePlugin pluginId s) = s \<and>
         fst (togglePlugin pluginId s) = Array_from (enabledPluginIds s) \<and>
         set (fst (togglePlugin pluginId s)) = set (enabledPluginIds s)"
proof -
  from assms have "find (\<lambda>p. id' p = pluginId) (plugins s) = None"
    by (auto simp: find_None_iff)
  then show ?thesis
    by (simp add: togglePlugin_def Array_from_def)
qed

theorem toggle_unknown_noop_witness:
  "''nonexistent-plugin'' \<notin> id' ` set (plugins (run example_calls)) \<and>
   snd (togglePlugin ''nonexistent-plugin'' (run example_calls)) = run example_calls \<and>
   set (fst (togglePlugin ''nonexistent-plugin'' (run example_calls))) =
     set (enabledPluginIds (run example_calls))"
proof -
  have h: "''nonexistent-plugin'' \<notin> id' ` set (plugins (run example_calls))"
    by (simp add: example_run plugin_a_def plugin_b_def)
  from toggle_unknown_noop [OF h] have
    "snd (togglePlugin ''nonexistent-plugin'' (run example_calls)) = run example_calls"
    and "set (fst (togglePlugin ''nonexistent-plugin'' (run example_calls))) =
      set (enabledPluginIds (run example_calls))"
    by blast+
  with h show ?thesis by blast
qed

lemma toggle_ids_other:
  "y \<noteq> x \<Longrightarrow>
   (y \<in> set (enabledPluginIds (snd (togglePlugin x s)))) = (y \<in> set (enabledPluginIds s))"
  by (simp add: togglePlugin_def Let_def set_set_add set_set_delete split: option.splits)

lemma toggle_ids_self:
  assumes "found_agrees s"
  shows "(x \<in> set (enabledPluginIds (snd (togglePlugin x s)))) =
         (if x \<in> id' ` set (plugins s) then x \<notin> set (enabledPluginIds s)
          else x \<in> set (enabledPluginIds s))"
proof (cases "find (\<lambda>p. id' p = x) (plugins s)")
  case None
  then have "x \<notin> id' ` set (plugins s)"
    by (auto simp: find_None_iff)
  with None show ?thesis by (simp add: togglePlugin_def)
next
  case (Some p)
  then have "x \<in> id' ` set (plugins s)"
    by (auto simp: find_Some_iff image_iff)
  moreover from Some assms have "enabled p = (x \<in> set (enabledPluginIds s))"
    by (simp add: found_agrees_def)
  ultimately show ?thesis using Some
    by (simp add: togglePlugin_def Let_def set_set_add set_set_delete)
qed

lemma toggle_keeps_ids: "map id' (plugins (snd (togglePlugin x s))) = map id' (plugins s)"
  by (simp add: togglePlugin_def Let_def map_id_assign_enabled split: option.splits)

lemma example_toggled:
  "snd (togglePlugin ''a'' (run example_calls)) =
     \<lparr>plugins = [plugin_b, plugin_a], enabledPluginIds = [''c'', ''b'']\<rparr>"
  by (simp add: example_run togglePlugin_def)
    (simp add: plugin_a_def plugin_b_def set_delete_def)

text \<open>
  C5. In every state the coordinator can reach, two calls of \<^verbatim>\<open>togglePlugin\<close> with
  the same identifier \<open>x\<close>, one right after the other, bring the membership of \<open>x\<close> in
  the Enabled-ID Set back to what it was, and neither call changes the membership of any
  other identifier.
\<close>

theorem toggle_twice_restores:
  fixes cs :: "call list" and x :: string
  defines "s0 \<equiv> run cs"
  defines "s1 \<equiv> snd (togglePlugin x s0)"
  defines "s2 \<equiv> snd (togglePlugin x s1)"
  shows "(x \<in> set (enabledPluginIds s2)) = (x \<in> set (enabledPluginIds s0)) \<and>
         (\<forall>y. y \<noteq> x \<longrightarrow>
            (y \<in> set (enabledPluginIds s1)) = (y \<in> set (enabledPluginIds s0)) \<and>
            (y \<in> set (enabledPluginIds s2)) = (y \<in> set (enabledPluginIds s1)))"
proof -
  have a0: "found_agrees s0"
    unfolding s0_def by (rule found_agrees_run)
  then have a1: "found_agrees s1"
    unfolding s1_def by (rule found_agrees_togglePlugin)
  have same: "(x \<in> id' ` set (plugins s1)) = (x \<in> id' ` set (plugins s0))"
    using toggle_keeps_ids [of x s0] unfolding s1_def by (metis list.set_map)
  have "(x \<in> set (enabledPluginIds s2)) = (x \<in> set (enabledPluginIds s0))"
    unfolding s2_def toggle_ids_self [OF a1] same
    unfolding s1_def toggle_ids_self [OF a0] by simp
  moreover have "(y \<in> set (enabledPluginIds s1)) = (y \<in> set (enabledPluginIds s0))"
    if "y \<noteq> x" for y
    unfolding s1_def using that by (rule toggle_ids_other)
  moreover have "(y \<in> set (enabledPluginIds s2)) = (y \<in> set (enabledPluginIds s1))"
    if "y \<noteq> x" for y
    unfolding s2_def using that by (rule toggle_ids_other)
  ultimately show ?thesis by blast
qed

theorem toggle_twice_restores_witness:
  "(''a'' \<in> set (enabledPluginIds
       (snd (togglePlugin ''a'' (snd (togglePlugin ''a'' (run example_calls))))))) =
     (''a'' \<in> set (enabledPluginIds (run example_calls))) \<and>
   ''b'' \<noteq> ''a'' \<and>
   (''b'' \<in> set (enabledPluginIds (snd (togglePlugin ''a'' (run example_calls))))) =
     (''b'' \<in> set (enabledPluginIds (run example_calls))) \<and>
   ''a'' \<in> set (enabledPluginIds (run example_calls)) \<and>
   ''a'' \<notin> set (enabledPluginIds (snd (togglePlugin ''a'' (run example_calls))))"
proof -
  note t = toggle_twice_restores [of "''a''" example_calls]
  have d: "''b'' \<noteq> ''a''" by simp
  have m: "''a'' \<in> set (enabledPluginIds (run example_calls))"
    by (simp add: example_run)
  have n: "''a'' \<notin> set (enabledPluginIds (snd (togglePlugin ''a'' (run example_calls))))"
    by (simp add: example_toggled)
  from t have o: "(''b'' \<in> set (enabledPluginIds (snd (togglePlugin ''a'' (run example_calls))))) =
     (''b'' \<in> set (enabledPluginIds (run example_calls)))"
    using d by simp
  show ?thesis
    using conjunct1 [OF t] d o m n by simp
qed

lemma unavailable_iff:
  assumes "found_agrees s" "unique_ids s"
  shows "(X \<in> set (getUnavailableEnabledPlugins s)) =
         (X \<in> set (enabledPluginIds s) \<and>
          (\<exists>p \<in> set (plugins s). id' p = X \<and> status p \<noteq> Available))"
  using agrees_all [OF assms]
  by (auto simp: getUnavailableEnabledPlugins_def image_iff)

text \<open>
  C8. In every state the coordinator can reach, the loaded list having unique
  identifiers as the data model requires, \<^verbatim>\<open>getUnavailableEnabledPlugins\<close> contains
  \<open>X\<close> exactly when \<open>X\<close> is in the Enabled-ID Set and the loaded list has a plugin with
  identifier \<open>X\<close> whose status is not \<^verbatim>\<open>available\<close>; an identifier with no loaded
  plugin is never reported.
\<close>

theorem unavailable_enabled_iff:
  assumes "unique_ids (run cs)"
  shows "(X \<in> set (getUnavailableEnabledPlugins (run cs))) =
           (X \<in> set (enabledPluginIds (run cs)) \<and>
            (\<exists>p \<in> set (plugins (run cs)). id' p = X \<and> status p \<noteq> Available)) \<and>
         (X \<notin> id' ` set (plugins (run cs)) \<longrightarrow>
            X \<notin> set (getUnavailableEnabledPlugins (run cs)))"
proof -
  from found_agrees_run [of cs] assms
  have "(X \<in> set (getUnavailableEnabledPlugins (run cs))) =
           (X \<in> set (enabledPluginIds (run cs)) \<and>
            (\<exists>p \<in> set (plugins (run cs)). id' p = X \<and> status p \<noteq> Available))"
    by (rule unavailable_iff)
  then show ?thesis by blast
qed

theorem unavailable_enabled_iff_witness:
  "unique_ids (run example_calls) \<and>
   ''b'' \<in> set (getUnavailableEnabledPlugins (run example_calls)) \<and>
   ''c'' \<in> set (enabledPluginIds (run example_calls)) \<and>
   ''c'' \<notin> id' ` set (plugins (run example_calls)) \<and>
   ''c'' \<notin> set (getUnavailableEnabledPlugins (run example_calls))"
proof -
  have u: "unique_ids (run example_calls)"
    by (simp add: example_run unique_ids_def plugin_a_def plugin_b_def)
  have b1: "''b'' \<in> set (enabledPluginIds (run example_calls))"
    by (simp add: example_run)
  have "plugin_b \<in> set (plugins (run example_calls))"
    by (simp add: example_run)
  moreover have "id' plugin_b = ''b'' \<and> status plugin_b \<noteq> Available"
    by (simp add: plugin_b_def)
  ultimately have b2: "\<exists>p \<in> set (plugins (run example_calls)). id' p = ''b'' \<and> status p \<noteq> Available"
    by (rule bexI [rotated])
  have c: "''c'' \<in> set (enabledPluginIds (run example_calls))"
    by (simp add: example_run)
  have n: "''c'' \<notin> id' ` set (plugins (run example_calls))"
    by (simp add: example_run plugin_a_def plugin_b_def)
  from conjunct1 [OF unavailable_enabled_iff [OF u, of "''b''"]] b1 b2
  have "''b'' \<in> set (getUnavailableEnabledPlugins (run example_calls))"
    by simp
  moreover from conjunct2 [OF unavailable_enabled_iff [OF u, of "''c''"]] n
  have "''c'' \<notin> set (getUnavailableEnabledPlugins (run example_calls))"
    by (rule mp)
  ultimately show ?thesis using u c n by simp
qed

text \<open>
  C9. A load that returns leaves the Enabled-ID Set as it was, whatever the set and
  whatever list the registry answers with; so does a load whose storage throws.
\<close>

theorem loadPlugins_keeps_enabled_ids:
  "(loadPlugins answer s = Inr s' \<longrightarrow> enabledPluginIds s' = enabledPluginIds s) \<and>
   enabledPluginIds (step s (LoadPlugins answer)) = enabledPluginIds s"
  by (cases answer) (auto simp: loadPlugins_def)

theorem loadPlugins_keeps_enabled_ids_witness:
  "loadPlugins (Inr []) (run example_calls) = Inr ((run example_calls)\<lparr>plugins := []\<rparr>) \<and>
   enabledPluginIds ((run example_calls)\<lparr>plugins := []\<rparr>) = enabledPluginIds (run example_calls) \<and>
   enabledPluginIds (run example_calls) = [''c'', ''a'', ''b'']"
proof -
  have l: "loadPlugins (Inr []) (run example_calls) = Inr ((run example_calls)\<lparr>plugins := []\<rparr>)"
    by (simp add: loadPlugins_def apply_enabled_def)
  from loadPlugins_keeps_enabled_ids
    [of "Inr []" "run example_calls" "(run example_calls)\<lparr>plugins := []\<rparr>"] l
  have "enabledPluginIds ((run example_calls)\<lparr>plugins := []\<rparr>) = enabledPluginIds (run example_calls)"
    by blast
  moreover have "enabledPluginIds (run example_calls) = [''c'', ''a'', ''b'']"
    by (simp add: example_run)
  ultimately show ?thesis using l by blast
qed

section \<open>Sorting and the key\<close>



lemma length_insert_sorted: "length (insert_sorted f x ys) = Suc (length ys)"
  by (induction ys) auto

lemma length_array_sort: "length (array_sort f xs) = length xs"
  by (induction xs) (auto simp: length_insert_sorted)


















lemma active_ba: "getActivePlugins state_ba = [plugin_b\<lparr>status := Available\<rparr>, plugin_a\<lparr>enabled := True\<rparr>]"
  by (simp add: getActivePlugins_def state_ba_def plugin_a_def plugin_b_def)


lemma key_ba: "getPluginsKey compare_codes state_ba = ''a:/a/.claude-plugin|b:/b/.claude-plugin''"
  by (simp add: getPluginsKey_def active_ba) (simp add: plugin_a_def plugin_b_def)








lemma join_Cons_nonempty: "x \<noteq> [] \<Longrightarrow> join sep (x # xs) \<noteq> []"
  by (cases xs) simp_all

lemma join_map_empty_iff:
  assumes "\<And>p. f p \<noteq> []"
  shows "(join sep (map f ps) = []) = (ps = [])"
proof (cases ps)
  case Nil
  then show ?thesis by simp
next
  case (Cons p ps')
  from assms have "join sep (f p # map f ps') \<noteq> []"
    by (rule join_Cons_nonempty)
  with Cons show ?thesis by simp
qed

text \<open>
  C7. In every state, \<^verbatim>\<open>getPluginsKey\<close> returns the empty string exactly when
  \<^verbatim>\<open>getEnabledCount\<close> returns 0, whatever the comparison.
\<close>

theorem getPluginsKey_empty_iff:
  "(getPluginsKey localeCompare s = '''') = (getEnabledCount s = 0)"
proof -
  let ?sorted = "array_sort (\<lambda>a b. localeCompare (id' a) (id' b)) (getActivePlugins s)"
  have "(join ''|'' (map (\<lambda>plugin. id' plugin @ '':'' @ pluginPath plugin) ?sorted) = []) =
      (?sorted = [])"
    by (rule join_map_empty_iff) simp
  then have "(getPluginsKey localeCompare s = '''') = (?sorted = [])"
    by (simp add: getPluginsKey_def Let_def)
  also have "\<dots> = (length ?sorted = 0)" by simp
  also have "\<dots> = (getEnabledCount s = 0)"
    by (simp only: length_array_sort getEnabledCount_def)
  finally show ?thesis .
qed

lemma example_active: "getActivePlugins (run example_calls) = [plugin_a\<lparr>enabled := True\<rparr>]"
  by (simp add: example_run getActivePlugins_def plugin_a_def plugin_b_def)

text \<open>
  C3. \<^verbatim>\<open>getActivePluginConfigs\<close> has one entry for each plugin of the list that is
  enabled and available, in the order of the list. Every entry has type \<^verbatim>\<open>local\<close>
  and the \<^verbatim>\<open>pluginPath\<close> (the manifest path) of its plugin as path, which is not
  the install path whenever the two differ.
\<close>

theorem getActivePluginConfigs_entries:
  "getActivePluginConfigs s =
     map (\<lambda>p. \<lparr>type' = TypeLocal, path = pluginPath p\<rparr>)
       (filter (\<lambda>p. enabled p \<and> status p = Available) (plugins s)) \<and>
   length (getActivePluginConfigs s) = getEnabledCount s \<and>
   (\<forall>i < getEnabledCount s.
      type' (getActivePluginConfigs s ! i) = TypeLocal \<and>
      path (getActivePluginConfigs s ! i) = pluginPath (getActivePlugins s ! i) \<and>
      (pluginPath (getActivePlugins s ! i) \<noteq> installPath (getActivePlugins s ! i) \<longrightarrow>
         path (getActivePluginConfigs s ! i) \<noteq> installPath (getActivePlugins s ! i)))"
  by (simp add: getActivePluginConfigs_def getActivePlugins_def getEnabledCount_def)

theorem getActivePluginConfigs_entries_witness:
  "getActivePluginConfigs (run example_calls) = [\<lparr>type' = TypeLocal, path = ''/a/.claude-plugin''\<rparr>] \<and>
   (0::nat) < getEnabledCount (run example_calls) \<and>
   pluginPath (getActivePlugins (run example_calls) ! 0) \<noteq>
     installPath (getActivePlugins (run example_calls) ! 0) \<and>
   path (getActivePluginConfigs (run example_calls) ! 0) \<noteq>
     installPath (getActivePlugins (run example_calls) ! 0)"
proof -
  note t = getActivePluginConfigs_entries [of "run example_calls"]
  have n: "(0::nat) < getEnabledCount (run example_calls)"
    by (simp add: getEnabledCount_def example_active)
  have d: "pluginPath (getActivePlugins (run example_calls) ! 0) \<noteq>
      installPath (getActivePlugins (run example_calls) ! 0)"
    by (simp add: example_active plugin_a_def)
  have c: "getActivePluginConfigs (run example_calls) =
      [\<lparr>type' = TypeLocal, path = ''/a/.claude-plugin''\<rparr>]"
    by (simp add: getActivePluginConfigs_def example_active plugin_a_def)
  from t n d have "path (getActivePluginConfigs (run example_calls) ! 0) \<noteq>
      installPath (getActivePlugins (run example_calls) ! 0)"
    by blast
  with c n d show ?thesis by simp
qed

text \<open>
  C4. \<^verbatim>\<open>getPluginCommandPaths\<close> has one entry for each active plugin, with the
  plugin's name and its \<^verbatim>\<open>installPath\<close> as \<^verbatim>\<open>commandsPath\<close>. Where the manifest
  path of a plugin differs from its install path, the entry's path is not the manifest
  path, and differs from the path that \<^verbatim>\<open>getActivePluginConfigs\<close> gives for the
  same plugin.
\<close>

theorem getPluginCommandPaths_entries:
  "getPluginCommandPaths s =
     map (\<lambda>p. \<lparr>pluginName = name p, commandsPath = installPath p\<rparr>)
       (filter (\<lambda>p. enabled p \<and> status p = Available) (plugins s)) \<and>
   length (getPluginCommandPaths s) = getEnabledCount s \<and>
   length (getActivePluginConfigs s) = getEnabledCount s \<and>
   (\<forall>i < getEnabledCount s.
      pluginName (getPluginCommandPaths s ! i) = name (getActivePlugins s ! i) \<and>
      commandsPath (getPluginCommandPaths s ! i) = installPath (getActivePlugins s ! i) \<and>
      (pluginPath (getActivePlugins s ! i) \<noteq> installPath (getActivePlugins s ! i) \<longrightarrow>
         commandsPath (getPluginCommandPaths s ! i) \<noteq> pluginPath (getActivePlugins s ! i) \<and>
         commandsPath (getPluginCommandPaths s ! i) \<noteq> path (getActivePluginConfigs s ! i)))"
  by (auto simp: getPluginCommandPaths_def getActivePluginConfigs_def getActivePlugins_def
      getEnabledCount_def)

theorem getPluginCommandPaths_entries_witness:
  "getPluginCommandPaths (run example_calls) = [\<lparr>pluginName = ''A'', commandsPath = ''/a''\<rparr>] \<and>
   (0::nat) < getEnabledCount (run example_calls) \<and>
   pluginPath (getActivePlugins (run example_calls) ! 0) \<noteq>
     installPath (getActivePlugins (run example_calls) ! 0) \<and>
   commandsPath (getPluginCommandPaths (run example_calls) ! 0) \<noteq>
     path (getActivePluginConfigs (run example_calls) ! 0)"
proof -
  note t = getPluginCommandPaths_entries [of "run example_calls"]
  have n: "(0::nat) < getEnabledCount (run example_calls)"
    by (simp add: getEnabledCount_def example_active)
  have d: "pluginPath (getActivePlugins (run example_calls) ! 0) \<noteq>
      installPath (getActivePlugins (run example_calls) ! 0)"
    by (simp add: example_active plugin_a_def)
  have c: "getPluginCommandPaths (run example_calls) =
      [\<lparr>pluginName = ''A'', commandsPath = ''/a''\<rparr>]"
    by (simp add: getPluginCommandPaths_def example_active plugin_a_def)
  from t n d have "commandsPath (getPluginCommandPaths (run example_calls) ! 0) \<noteq>
      path (getActivePluginConfigs (run example_calls) ! 0)"
    by blast
  with c n d show ?thesis by simp
qed

section \<open>The queries and the store\<close>

text \<open>
  On the store, a query returns what the same query returns on the state that the store
  holds (\<open>view\<close>), and it writes only to arrays that it allocated itself.
\<close>

lemma map_insert_sorted:
  "map g (insert_sorted (\<lambda>a b. f (g a) (g b)) x ys) = insert_sorted f (g x) (map g ys)"
  by (induction ys) auto

lemma map_array_sort:
  "map g (array_sort (\<lambda>a b. f (g a) (g b)) xs) = array_sort f (map g xs)"
  by (induction xs) (auto simp: map_insert_sorted)

lemma new_array_same:
  "allocated this h \<Longrightarrow> same_state this h (snd (new_array xs h))"
  by (simp add: new_array_def same_state_def allocated_def)

lemma new_array_fresh:
  "allocated this h \<Longrightarrow> fst (new_array xs h) \<noteq> plugins_ref this"
  by (auto simp: new_array_def allocated_def)

lemma new_array_content: "arrays (snd (new_array xs h)) (fst (new_array xs h)) = xs"
  by (simp add: new_array_def)

lemma new_array_objects: "objects (snd (new_array xs h)) = objects h"
  by (simp add: new_array_def)

lemma Array_sort_same:
  "same_state this h0 h \<Longrightarrow> a \<noteq> plugins_ref this \<Longrightarrow> same_state this h0 (snd (Array_sort cmp a h))"
  by (simp add: Array_sort_def same_state_def)

lemma same_state_view: "same_state this h h' \<Longrightarrow> view this h' = view this h"
  by (simp add: same_state_def view_def Array_values_def)

lemma active_same: "allocated this h \<Longrightarrow> same_state this h (snd (getActivePlugins_heap this h))"
  by (simp add: getActivePlugins_heap_def Array_filter_def new_array_same)

lemma active_fresh: "allocated this h \<Longrightarrow> fst (getActivePlugins_heap this h) \<noteq> plugins_ref this"
  by (simp add: getActivePlugins_heap_def Array_filter_def new_array_fresh)

lemma active_values:
  "Array_values (fst (getActivePlugins_heap this h)) (snd (getActivePlugins_heap this h)) =
     getActivePlugins (view this h)"
  by (simp add: getActivePlugins_heap_def Array_filter_def Array_values_def new_array_content
      new_array_objects getActivePlugins_def view_def filter_map comp_def)

lemma key_same:
  assumes "allocated this h"
  shows "same_state this h (snd (getPluginsKey_heap cmp this h))"
proof -
  from assms have "same_state this h (snd (getActivePlugins_heap this h))"
    and "fst (getActivePlugins_heap this h) \<noteq> plugins_ref this"
    by (rule active_same, rule active_fresh)
  then have "same_state this h
      (snd (Array_sort (\<lambda>a b. cmp (id' a) (id' b)) (fst (getActivePlugins_heap this h))
         (snd (getActivePlugins_heap this h))))"
    by (rule Array_sort_same)
  then show ?thesis
    by (simp add: getPluginsKey_heap_def Let_def case_prod_beta)
qed

lemma Array_sort_values:
  "Array_values (fst (Array_sort (\<lambda>a b. f (g a) (g b)) a h)) (snd (Array_sort (\<lambda>a b. f (g a) (g b)) a h)) =
     array_sort (\<lambda>a b. f (g a) (g b)) (Array_values a h)"
  by (simp add: Array_sort_def Array_values_def
      map_array_sort [where g = "objects h" and f = "\<lambda>a b. f (g a) (g b)"])

lemma length_Array_values: "length (Array_values a h) = length (arrays h a)"
  by (simp add: Array_values_def)

lemma key_result: "fst (getPluginsKey_heap cmp this h) = getPluginsKey cmp (view this h)"
  by (simp add: getPluginsKey_heap_def getPluginsKey_def Let_def case_prod_beta
      Array_sort_values active_values flip: length_Array_values)

lemma filter_same:
  "allocated this h \<Longrightarrow> same_state this h (snd (Array_filter P (plugins_ref this) h))"
  by (simp add: Array_filter_def new_array_same)

lemma caller_writes_same:
  "same_state this h h' \<Longrightarrow> a \<noteq> plugins_ref this \<Longrightarrow> same_state this h (caller_writes a xs h')"
  by (simp add: caller_writes_def same_state_def)

lemma filter_values:
  "Array_values (fst (Array_filter P a h)) (snd (Array_filter P a h)) =
     filter P (Array_values a h)"
  by (simp add: Array_filter_def Array_values_def new_array_content new_array_objects
      filter_map comp_def)

lemma queries_heap_results:
  "fst (getActivePluginConfigs_heap this h) = getActivePluginConfigs (view this h)"
  "fst (getUnavailableEnabledPlugins_heap this h) = getUnavailableEnabledPlugins (view this h)"
  "fst (hasEnabledPlugins_heap this h) = hasEnabledPlugins (view this h)"
  "fst (getEnabledCount_heap this h) = getEnabledCount (view this h)"
  "fst (hasPlugins_heap this h) = hasPlugins (view this h)"
  "fst (getPluginCommandPaths_heap this h) = getPluginCommandPaths (view this h)"
proof -
  show "fst (getActivePluginConfigs_heap this h) = getActivePluginConfigs (view this h)"
    by (simp add: getActivePluginConfigs_heap_def getActivePluginConfigs_def case_prod_beta
        active_values)
  show "fst (getUnavailableEnabledPlugins_heap this h) =
      getUnavailableEnabledPlugins (view this h)"
    by (simp add: getUnavailableEnabledPlugins_heap_def getUnavailableEnabledPlugins_def
        case_prod_beta filter_values view_def)
  show "fst (hasEnabledPlugins_heap this h) = hasEnabledPlugins (view this h)"
    by (simp add: hasEnabledPlugins_heap_def hasEnabledPlugins_def case_prod_beta
        active_values flip: length_Array_values)
  show "fst (getEnabledCount_heap this h) = getEnabledCount (view this h)"
    by (simp add: getEnabledCount_heap_def getEnabledCount_def case_prod_beta
        active_values flip: length_Array_values)
  show "fst (hasPlugins_heap this h) = hasPlugins (view this h)"
    by (simp add: hasPlugins_heap_def hasPlugins_def view_def Array_values_def)
  show "fst (getPluginCommandPaths_heap this h) = getPluginCommandPaths (view this h)"
    by (simp add: getPluginCommandPaths_heap_def getPluginCommandPaths_def case_prod_beta
        active_values)
qed

text \<open>
  C10. Every query (\<^verbatim>\<open>getPlugins\<close>, \<^verbatim>\<open>getActivePluginConfigs\<close>,
  \<^verbatim>\<open>getUnavailableEnabledPlugins\<close>, \<^verbatim>\<open>hasEnabledPlugins\<close>,
  \<^verbatim>\<open>getEnabledCount\<close>, \<^verbatim>\<open>getPluginsKey\<close>, \<^verbatim>\<open>hasPlugins\<close>,
  \<^verbatim>\<open>getPluginCommandPaths\<close>) leaves the coordinator's array and every plugin object
  as they were. In particular \<^verbatim>\<open>getPluginsKey\<close> sorts the new array that the filter
  made, so the stored list keeps its order while the key is the one of the sorted list;
  and \<^verbatim>\<open>getPlugins\<close> returns a new array with the elements of the stored one, so
  that whatever the caller writes into it, the stored list stays the same.
\<close>

theorem queries_leave_state:
  assumes "allocated this h"
  shows "same_state this h (snd (getPlugins_heap this h)) \<and>
     same_state this h (snd (getActivePluginConfigs_heap this h)) \<and>
     same_state this h (snd (getUnavailableEnabledPlugins_heap this h)) \<and>
     same_state this h (snd (hasEnabledPlugins_heap this h)) \<and>
     same_state this h (snd (getEnabledCount_heap this h)) \<and>
     same_state this h (snd (getPluginsKey_heap localeCompare this h)) \<and>
     same_state this h (snd (hasPlugins_heap this h)) \<and>
     same_state this h (snd (getPluginCommandPaths_heap this h)) \<and>
     view this (snd (getPluginsKey_heap localeCompare this h)) = view this h \<and>
     fst (getPluginsKey_heap localeCompare this h) = getPluginsKey localeCompare (view this h) \<and>
     fst (getPlugins_heap this h) \<noteq> plugins_ref this \<and>
     Array_values (fst (getPlugins_heap this h)) (snd (getPlugins_heap this h)) =
       getPlugins (view this h) \<and>
     (\<forall>xs. view this
        (caller_writes (fst (getPlugins_heap this h)) xs (snd (getPlugins_heap this h))) =
        view this h)"
proof -
  have active: "same_state this h (snd (getActivePlugins_heap this h))"
    using assms by (rule active_same)
  have plugins: "same_state this h (snd (getPlugins_heap this h))"
    using assms by (simp add: getPlugins_heap_def Array_spread_def new_array_same)
  have fresh: "fst (getPlugins_heap this h) \<noteq> plugins_ref this"
    using assms by (simp add: getPlugins_heap_def Array_spread_def new_array_fresh)
  have key: "same_state this h (snd (getPluginsKey_heap localeCompare this h))"
    using assms by (rule key_same)
  have "same_state this h (snd (getActivePluginConfigs_heap this h))"
    using active by (simp add: getActivePluginConfigs_heap_def case_prod_beta)
  moreover have "same_state this h (snd (getUnavailableEnabledPlugins_heap this h))"
    using filter_same [OF assms]
    by (simp add: getUnavailableEnabledPlugins_heap_def case_prod_beta)
  moreover have "same_state this h (snd (hasEnabledPlugins_heap this h))"
    using active by (simp add: hasEnabledPlugins_heap_def case_prod_beta)
  moreover have "same_state this h (snd (getEnabledCount_heap this h))"
    using active by (simp add: getEnabledCount_heap_def case_prod_beta)
  moreover have "same_state this h (snd (hasPlugins_heap this h))"
    by (simp add: hasPlugins_heap_def same_state_def)
  moreover have "same_state this h (snd (getPluginCommandPaths_heap this h))"
    using active by (simp add: getPluginCommandPaths_heap_def case_prod_beta)
  moreover have "view this (snd (getPluginsKey_heap localeCompare this h)) = view this h"
    using key by (rule same_state_view)
  moreover have "Array_values (fst (getPlugins_heap this h)) (snd (getPlugins_heap this h)) =
      getPlugins (view this h)"
    by (simp add: getPlugins_heap_def Array_spread_def Array_values_def new_array_content
        new_array_objects getPlugins_def view_def)
  moreover have "view this
      (caller_writes (fst (getPlugins_heap this h)) xs (snd (getPlugins_heap this h))) =
      view this h" for xs
    using plugins fresh by (intro same_state_view caller_writes_same)
  ultimately show ?thesis
    using plugins key fresh key_result [of localeCompare this h] by simp
qed

lemma example_allocated: "allocated example_this example_heap"
  by (simp add: allocated_def example_this_def example_heap_def)

lemma example_key_heap:
  "arrays (snd (getPluginsKey_heap compare_codes example_this example_heap)) 1 = [11, 10]"
  by (simp add: getPluginsKey_heap_def getActivePlugins_heap_def Array_filter_def new_array_def
      Array_sort_def example_this_def example_heap_def plugin_a_def plugin_b_def)

lemma example_view: "view example_this example_heap = state_ba"
  by (simp add: view_def Array_values_def example_this_def example_heap_def state_ba_def)

theorem queries_leave_state_witness:
  "allocated example_this example_heap \<and>
   arrays example_heap 0 = [10, 11] \<and>
   arrays (snd (getPluginsKey_heap compare_codes example_this example_heap)) 1 = [11, 10] \<and>
   arrays (snd (getPluginsKey_heap compare_codes example_this example_heap)) 0 = [10, 11] \<and>
   fst (getPluginsKey_heap compare_codes example_this example_heap) =
     ''a:/a/.claude-plugin|b:/b/.claude-plugin'' \<and>
   fst (getPlugins_heap example_this example_heap) = 1 \<and>
   view example_this
     (caller_writes (fst (getPlugins_heap example_this example_heap)) []
        (snd (getPlugins_heap example_this example_heap))) = state_ba"
proof -
  note t = queries_leave_state [OF example_allocated, of compare_codes]
  have a0: "arrays example_heap 0 = [10, 11]"
    by (simp add: example_heap_def)
  from t have "same_state example_this example_heap
      (snd (getPluginsKey_heap compare_codes example_this example_heap))"
    by simp
  then have kept: "arrays (snd (getPluginsKey_heap compare_codes example_this example_heap)) 0 = [10, 11]"
    by (simp add: same_state_def example_this_def a0)
  from t have "fst (getPluginsKey_heap compare_codes example_this example_heap) =
      getPluginsKey compare_codes (view example_this example_heap)"
    by simp
  then have k: "fst (getPluginsKey_heap compare_codes example_this example_heap) =
      ''a:/a/.claude-plugin|b:/b/.claude-plugin''"
    by (simp add: example_view key_ba)
  have f: "fst (getPlugins_heap example_this example_heap) = 1"
    by (simp add: getPlugins_heap_def Array_spread_def new_array_def example_heap_def)
  from t have "view example_this
     (caller_writes (fst (getPlugins_heap example_this example_heap)) []
        (snd (getPlugins_heap example_this example_heap))) = view example_this example_heap"
    by simp
  then have w: "view example_this
     (caller_writes (fst (getPlugins_heap example_this example_heap)) []
        (snd (getPlugins_heap example_this example_heap))) = state_ba"
    by (simp only: example_view)
  from example_allocated a0 example_key_heap kept k f w show ?thesis
    by simp
qed

end
